theory Spec2Isabelle
  imports Main "HOL-Library.Word" "HOL-Library.Monad_Syntax"
begin

section \<open>The vertex store: data model\<close>

text \<open>
  The embedding follows \<^verbatim>\<open>package state\<close> of
  \<^verbatim>\<open>src/snow/networking/router/metrics.go\<close> (lines 126--371): the type
  \<^verbatim>\<open>uniqueVertex\<close>, its state cell \<^verbatim>\<open>vertexState\<close> and the methods
  \<^verbatim>\<open>refresh\<close>, \<^verbatim>\<open>Evict\<close>, \<^verbatim>\<open>setVertex\<close>,
  \<^verbatim>\<open>storeAndUpdateStatus\<close>, \<^verbatim>\<open>setStatus\<close>, \<^verbatim>\<open>Accept\<close>,
  \<^verbatim>\<open>Reject\<close>, \<^verbatim>\<open>Status\<close>, \<^verbatim>\<open>Parents\<close>, \<^verbatim>\<open>Height\<close>,
  \<^verbatim>\<open>Txs\<close>, \<^verbatim>\<open>Bytes\<close> and \<^verbatim>\<open>Verify\<close>.

  Go pointers are addresses into two explicit heaps: one of \<^verbatim>\<open>uniqueVertex\<close>
  structs and one of \<^verbatim>\<open>vertexState\<close> cells, so that the aliasing made by
  \<^verbatim>\<open>*vtx = *unique\<close> is visible. A nil pointer is \<open>None\<close>. A method returns
  \<open>None\<close> where the Go code panics on a nil pointer dereference. The calls to
  \<^verbatim>\<open>fmt.Printf\<close> are left out.
\<close>

type_synonym ID = "256 word"
type_synonym byte_seq = "8 word list"
type_synonym Tx = nat
type_synonym haddr = nat
type_synonym saddr = nat

text \<open>\<^verbatim>\<open>choices.Status\<close>; its zero value is \<open>Unknown\<close>.\<close>

datatype Status = Unknown | Processing | Rejected | Accepted

datatype error = ParseFailure | ValidationFailure | StorageFailure

text \<open>
  The inner \<^verbatim>\<open>vertex\<close> struct. The source reads its fields
  \<^verbatim>\<open>parentIDs\<close>, \<^verbatim>\<open>height\<close> and \<^verbatim>\<open>txs\<close> and calls its methods
  \<^verbatim>\<open>Bytes()\<close> and \<^verbatim>\<open>Verify()\<close>; \<open>vid\<close> is the identifier under which
  the store files it.
\<close>

record vertex =
  vid :: ID
  parentIDs :: "ID list"
  height :: "64 word"
  txs :: "Tx list"
  vbytes :: byte_seq

text \<open>\<^verbatim>\<open>&vertex{}\<close>: every field at its zero value.\<close>

definition empty_vertex :: vertex where
  "empty_vertex = \<lparr>vid = 0, parentIDs = [], height = 0, txs = [], vbytes = []\<rparr>"

text \<open>\<^verbatim>\<open>type vertexState struct\<close> (lines 362--371). A nil slice is \<open>[]\<close>.\<close>

record vertexState =
  unique :: bool
  verified :: bool
  validity :: "error option"
  vtx :: "vertex option"
  status :: Status
  parents :: "haddr list"
  vs_txs :: "Tx list"

text \<open>\<^verbatim>\<open>&vertexState{}\<close>.\<close>

definition zero_state :: vertexState where
  "zero_state = \<lparr>unique = False, verified = False, validity = None, vtx = None,
     status = Unknown, parents = [], vs_txs = []\<rparr>"

text \<open>
  \<^verbatim>\<open>type uniqueVertex struct\<close> (lines 148--154). All handles share the one
  serializer, which is part of the world below.
\<close>

record uniqueVertex =
  vtxID :: ID
  bytes :: "byte_seq option"
  v :: "saddr option"

text \<open>
  Modelled from the spec: the persistent vertex store behind
  \<^verbatim>\<open>serializer.state\<close> and \<^verbatim>\<open>serializer.db\<close>, whose code is not part of the
  sources. Section 6 of the specification gives its interface: bodies and statuses by
  identifier, the frontier as a set, and a commit that batches all puts issued since the
  last commit into one atomic unit.
\<close>

record store =
  st_status :: "ID \<rightharpoonup> Status"
  st_vertex :: "ID \<rightharpoonup> vertex"
  st_edge :: "ID set"

text \<open>Every call that reaches the store is recorded, in order.\<close>

datatype io_event =
    GetStatus ID
  | PutStatus ID Status
  | GetVertex ID
  | PutVertex vertex
  | PutEdge "ID set"
  | CommitCall

text \<open>
  The world: both heaps with their allocation pointers, the de-duplicator (most recently
  resolved entry first) with its capacity, the serializer's in-memory frontier
  \<^verbatim>\<open>serializer.edge\<close>, the store as the open transaction sees it (\<open>view\<close>), the
  store as last committed (\<open>durable\<close>), and the record of store calls.
\<close>

record world =
  handles :: "haddr \<Rightarrow> uniqueVertex"
  next_handle :: haddr
  states :: "saddr \<Rightarrow> vertexState"
  next_state :: saddr
  cache :: "(ID \<times> haddr) list"
  cache_size :: nat
  edge :: "ID set"
  view :: store
  durable :: store
  io :: "io_event list"

text \<open>
  What the code consumes from outside: the parser \<^verbatim>\<open>serializer.parseVertex\<close>, which
  returns a Go pair \<^verbatim>\<open>(*vertex, error)\<close>, the validator behind
  \<^verbatim>\<open>vertex.Verify()\<close>, and the outcome of \<^verbatim>\<open>db.Commit()\<close>.
\<close>

record env =
  parseVertex :: "byte_seq \<Rightarrow> vertex option \<times> error option"
  verifyVertex :: "vertex \<Rightarrow> error option"
  commitErr :: "error option"

section \<open>The store and the de-duplicator\<close>

definition upd_state :: "saddr \<Rightarrow> (vertexState \<Rightarrow> vertexState) \<Rightarrow> world \<Rightarrow> world" where
  "upd_state a f w = w\<lparr>states := (states w)(a := f (states w a))\<rparr>"

text \<open>Modelled from the spec: \<^verbatim>\<open>getStatus(id)\<close>, absent means Unknown.\<close>

definition state_Status :: "ID \<Rightarrow> world \<Rightarrow> Status \<times> world" where
  "state_Status i w =
     ((case st_status (view w) i of None \<Rightarrow> Unknown | Some s \<Rightarrow> s),
      w\<lparr>io := io w @ [GetStatus i]\<rparr>)"

text \<open>Modelled from the spec: \<^verbatim>\<open>putStatus(id, status)\<close>.\<close>

definition state_SetStatus :: "ID \<Rightarrow> Status \<Rightarrow> world \<Rightarrow> world" where
  "state_SetStatus i s w =
     w\<lparr>view := (view w)\<lparr>st_status := (st_status (view w))(i \<mapsto> s)\<rparr>,
       io := io w @ [PutStatus i s]\<rparr>"

text \<open>Modelled from the spec: \<^verbatim>\<open>getBody(id)\<close>, nil when absent.\<close>

definition state_Vertex :: "ID \<Rightarrow> world \<Rightarrow> vertex option \<times> world" where
  "state_Vertex i w = (st_vertex (view w) i, w\<lparr>io := io w @ [GetVertex i]\<rparr>)"

text \<open>
  Modelled from the spec: \<^verbatim>\<open>putBody(id, body)\<close>. The source passes the
  \<^verbatim>\<open>*vertex\<close> only, so the key is read from the vertex: a nil vertex is a nil
  pointer dereference.
\<close>

definition state_SetVertex :: "vertex option \<Rightarrow> world \<Rightarrow> world option" where
  "state_SetVertex b w =
     (case b of
        None \<Rightarrow> None
      | Some x \<Rightarrow>
          Some (w\<lparr>view := (view w)\<lparr>st_vertex := (st_vertex (view w))(vid x \<mapsto> x)\<rparr>,
                  io := io w @ [PutVertex x]\<rparr>))"

text \<open>Modelled from the spec: \<^verbatim>\<open>putFrontier(set)\<close>.\<close>

definition state_SetEdge :: "ID set \<Rightarrow> world \<Rightarrow> world" where
  "state_SetEdge e w =
     w\<lparr>view := (view w)\<lparr>st_edge := e\<rparr>, io := io w @ [PutEdge e]\<rparr>"

text \<open>
  Modelled from the spec: \<^verbatim>\<open>commit()\<close> either makes every put since the last
  commit durable, or fails and makes none of them durable.
\<close>

definition db_Commit :: "env \<Rightarrow> world \<Rightarrow> error option \<times> world" where
  "db_Commit en w =
     (commitErr en,
      (if commitErr en = None then w\<lparr>durable := view w\<rparr> else w)\<lparr>io := io w @ [CommitCall]\<rparr>)"

text \<open>\<^verbatim>\<open>func (vtx *uniqueVertex) Evict()\<close>, lines 215--219.\<close>

definition Evict :: "haddr \<Rightarrow> world \<Rightarrow> world" where
  "Evict h w =
     (case v (handles w h) of
        None \<Rightarrow> w
      | Some a \<Rightarrow> upd_state a (\<lambda>s. s\<lparr>unique := False\<rparr>) w)"

text \<open>
  Modelled from the spec: \<^verbatim>\<open>serializer.state.UniqueVertex\<close>, the de-duplicator
  of section 4.1, whose code is not part of the sources. If an entry for the candidate's
  identifier is cached it is returned (and becomes the most recently resolved one);
  otherwise the candidate is registered, after the least recently resolved entry has
  been demoted through its \<^verbatim>\<open>Evict\<close> hook when the cache is full.
\<close>

definition UniqueVertex :: "haddr \<Rightarrow> world \<Rightarrow> haddr \<times> world" where
  "UniqueVertex h w =
     (let key = vtxID (handles w h) in
      case map_of (cache w) key of
        Some e \<Rightarrow> (e, w\<lparr>cache := (key, e) # filter (\<lambda>p. fst p \<noteq> key) (cache w)\<rparr>)
      | None \<Rightarrow>
          (let w1 = (if cache w \<noteq> [] \<and> cache_size w \<le> length (cache w)
                     then Evict (snd (last (cache w))) (w\<lparr>cache := butlast (cache w)\<rparr>)
                     else w)
           in (h, w1\<lparr>cache := (key, h) # cache w1\<rparr>)))"

section \<open>The methods of uniqueVertex\<close>

text \<open>\<^verbatim>\<open>storeAndUpdateStatus\<close>, lines 231--239.\<close>

definition storeAndUpdateStatus :: "haddr \<Rightarrow> world \<Rightarrow> world option" where
  "storeAndUpdateStatus h w =
     (case v (handles w h) of
        None \<Rightarrow> None
      | Some a \<Rightarrow>
          do {
            w1 \<leftarrow> state_SetVertex (vtx (states w a)) w;
            let (st, w2) = state_Status (vtxID (handles w1 h)) w1;
            if st = Unknown
            then Some (upd_state a (\<lambda>s. s\<lparr>status := Processing\<rparr>)
                         (state_SetStatus (vtxID (handles w2 h)) Processing w2))
            else Some (upd_state a (\<lambda>s. s\<lparr>status := st\<rparr>) w2)
          })"

text \<open>
  The \<^verbatim>\<open>switch\<close> of \<^verbatim>\<open>refresh\<close>, lines 182--205. The first case stores the
  parser's vertex when \<^verbatim>\<open>err != nil\<close> and takes the placeholder branch when
  \<^verbatim>\<open>err == nil\<close>, as line 186 is written.
\<close>

definition deriveBody :: "env \<Rightarrow> haddr \<Rightarrow> vertex option \<Rightarrow> world \<Rightarrow> world option" where
  "deriveBody en h prevVtx w =
     (case v (handles w h) of
        None \<Rightarrow> None
      | Some a \<Rightarrow>
          (case (vtx (states w a), prevVtx, bytes (handles w h)) of
             (None, None, Some bs) \<Rightarrow>
               (case parseVertex en bs of
                  (parsedVtx, err) \<Rightarrow>
                    if err \<noteq> None
                    then storeAndUpdateStatus h (upd_state a (\<lambda>s. s\<lparr>vtx := parsedVtx\<rparr>) w)
                    else Some (upd_state a
                           (\<lambda>s. s\<lparr>vtx := Some empty_vertex, validity := err, verified := True\<rparr>) w))
           | (None, None, None) \<Rightarrow>
               (case state_Vertex (vtxID (handles w h)) w of
                  (b, w1) \<Rightarrow> Some (upd_state a (\<lambda>s. s\<lparr>vtx := b\<rparr>) w1))
           | (None, Some p, _) \<Rightarrow> Some (upd_state a (\<lambda>s. s\<lparr>vtx := prevVtx\<rparr>) w)
           | (Some _, _, _) \<Rightarrow> Some w))"

text \<open>\<^verbatim>\<open>vtx.v = &vertexState{}\<close>, line 161.\<close>

definition allocState :: "haddr \<Rightarrow> world \<Rightarrow> world" where
  "allocState h w =
     w\<lparr>handles := (handles w)(h := (handles w h)\<lparr>v := Some (next_state w)\<rparr>),
       states := (states w)(next_state w := zero_state),
       next_state := Suc (next_state w)\<rparr>"

text \<open>\<^verbatim>\<open>func (vtx *uniqueVertex) refresh()\<close>, lines 156--213.\<close>

definition refresh :: "env \<Rightarrow> haddr \<Rightarrow> world \<Rightarrow> world option" where
  "refresh en h w =
     (let w1 = (if v (handles w h) = None then allocState h w else w) in
      case v (handles w1 h) of
        None \<Rightarrow> None
      | Some a \<Rightarrow>
          if \<not> unique (states w1 a) then
            (case UniqueVertex h w1 of
               (u, w2) \<Rightarrow>
                 let prevVtx = vtx (states w2 a) in
                 if u = h then
                   (case state_Status (vtxID (handles w2 h)) w2 of
                      (st, w3) \<Rightarrow>
                        deriveBody en h prevVtx
                          (upd_state a (\<lambda>s. s\<lparr>status := st, unique := True\<rparr>) w3))
                 else
                   deriveBody en h prevVtx
                     (w2\<lparr>handles := (handles w2)
                            (h := (handles w2 u)\<lparr>bytes := bytes (handles w2 h)\<rparr>)\<rparr>))
          else Some w1)"

text \<open>\<^verbatim>\<open>setStatus\<close>, lines 241--247.\<close>

definition setStatus :: "env \<Rightarrow> haddr \<Rightarrow> Status \<Rightarrow> world \<Rightarrow> world option" where
  "setStatus en h s w =
     do {
       w1 \<leftarrow> refresh en h w;
       case v (handles w1 h) of
         None \<Rightarrow> None
       | Some a \<Rightarrow>
           if status (states w1 a) \<noteq> s
           then Some (upd_state a (\<lambda>x. x\<lparr>status := s\<rparr>)
                        (state_SetStatus (vtxID (handles w1 h)) s w1))
           else Some w1
     }"

text \<open>\<^verbatim>\<open>setVertex\<close>, lines 221--228.\<close>

definition setVertex :: "env \<Rightarrow> haddr \<Rightarrow> vertex option \<Rightarrow> world \<Rightarrow> world option" where
  "setVertex en h innerVtx w =
     do {
       w1 \<leftarrow> refresh en h w;
       case v (handles w1 h) of
         None \<Rightarrow> None
       | Some a \<Rightarrow>
           if vtx (states w1 a) = None
           then do {
             w2 \<leftarrow> state_SetVertex innerVtx (upd_state a (\<lambda>x. x\<lparr>vtx := innerVtx\<rparr>) w1);
             setStatus en h Processing w2
           }
           else Some w1
     }"

text \<open>\<^verbatim>\<open>Status\<close>, line 278.\<close>

definition Status_of :: "env \<Rightarrow> haddr \<Rightarrow> world \<Rightarrow> (Status \<times> world) option" where
  "Status_of en h w =
     do {
       w1 \<leftarrow> refresh en h w;
       case v (handles w1 h) of
         None \<Rightarrow> None
       | Some a \<Rightarrow> Some (status (states w1 a), w1)
     }"

text \<open>
  The loop of \<^verbatim>\<open>Parents\<close>, lines 284--290: one new handle per parent identifier,
  built from the identifier alone (no bytes, nil state).
\<close>

fun makeParents :: "ID list \<Rightarrow> world \<Rightarrow> haddr list \<times> world" where
  "makeParents [] w = ([], w)"
| "makeParents (p # ps) w =
     (let h = next_handle w;
          w1 = w\<lparr>handles := (handles w)(h := \<lparr>vtxID = p, bytes = None, v = None\<rparr>),
                 next_handle := Suc h\<rparr>
      in case makeParents ps w1 of (hs, w2) \<Rightarrow> (h # hs, w2))"

text \<open>\<^verbatim>\<open>Parents\<close>, lines 280--294.\<close>

definition Parents :: "env \<Rightarrow> haddr \<Rightarrow> world \<Rightarrow> (haddr list \<times> world) option" where
  "Parents en h w =
     do {
       w1 \<leftarrow> refresh en h w;
       case v (handles w1 h) of
         None \<Rightarrow> None
       | Some a \<Rightarrow>
           (case vtx (states w1 a) of
              None \<Rightarrow> None
            | Some b \<Rightarrow>
                if length (parents (states w1 a)) \<noteq> length (parentIDs b)
                then (case makeParents (parentIDs b) w1 of
                        (hs, w2) \<Rightarrow> Some (hs, upd_state a (\<lambda>x. x\<lparr>parents := hs\<rparr>) w2))
                else Some (parents (states w1 a), w1))
     }"

text \<open>\<^verbatim>\<open>Height\<close>, lines 296--300.\<close>

definition Height :: "env \<Rightarrow> haddr \<Rightarrow> world \<Rightarrow> (64 word \<times> world) option" where
  "Height en h w =
     do {
       w1 \<leftarrow> refresh en h w;
       case v (handles w1 h) of
         None \<Rightarrow> None
       | Some a \<Rightarrow>
           (case vtx (states w1 a) of
              None \<Rightarrow> None
            | Some b \<Rightarrow> Some (height b, w1))
     }"

text \<open>\<^verbatim>\<open>Txs\<close>, lines 302--313.\<close>

definition Txs :: "env \<Rightarrow> haddr \<Rightarrow> world \<Rightarrow> (Tx list \<times> world) option" where
  "Txs en h w =
     do {
       w1 \<leftarrow> refresh en h w;
       case v (handles w1 h) of
         None \<Rightarrow> None
       | Some a \<Rightarrow>
           (case vtx (states w1 a) of
              None \<Rightarrow> None
            | Some b \<Rightarrow>
                if length (txs b) \<noteq> length (vs_txs (states w1 a))
                then Some (txs b, upd_state a (\<lambda>x. x\<lparr>vs_txs := txs b\<rparr>) w1)
                else Some (vs_txs (states w1 a), w1))
     }"

text \<open>\<^verbatim>\<open>Bytes\<close>, lines 315--321.\<close>

definition Bytes :: "env \<Rightarrow> haddr \<Rightarrow> world \<Rightarrow> (byte_seq \<times> world) option" where
  "Bytes en h w =
     (case bytes (handles w h) of
        Some bs \<Rightarrow> Some (bs, w)
      | None \<Rightarrow>
          (case v (handles w h) of
             None \<Rightarrow> None
           | Some a \<Rightarrow>
               (case vtx (states w a) of
                  None \<Rightarrow> None
                | Some b \<Rightarrow> Some (vbytes b, w))))"

text \<open>\<^verbatim>\<open>Verify\<close>, lines 323--331.\<close>

definition Verify :: "env \<Rightarrow> haddr \<Rightarrow> world \<Rightarrow> (error option \<times> world) option" where
  "Verify en h w =
     (case v (handles w h) of
        None \<Rightarrow> None
      | Some a \<Rightarrow>
          if verified (states w a) then Some (validity (states w a), w)
          else
            (case vtx (states w a) of
               None \<Rightarrow> None
             | Some b \<Rightarrow>
                 Some (verifyVertex en b,
                       upd_state a (\<lambda>x. x\<lparr>validity := verifyVertex en b, verified := True\<rparr>) w)))"

text \<open>The loop of \<^verbatim>\<open>Accept\<close>, lines 255--257.\<close>

definition removeParents :: "haddr list \<Rightarrow> world \<Rightarrow> world" where
  "removeParents ps w =
     w\<lparr>edge := fold (\<lambda>p e. e - {vtxID (handles w p)}) ps (edge w)\<rparr>"

text \<open>\<^verbatim>\<open>vtx.v.parents = nil\<close>, lines 263 and 273.\<close>

definition clearParents :: "haddr \<Rightarrow> world \<Rightarrow> world option" where
  "clearParents h w =
     (case v (handles w h) of
        None \<Rightarrow> None
      | Some a \<Rightarrow> Some (upd_state a (\<lambda>x. x\<lparr>parents := []\<rparr>) w))"

text \<open>\<^verbatim>\<open>Accept\<close>, lines 251--266.\<close>

definition Accept :: "env \<Rightarrow> haddr \<Rightarrow> world \<Rightarrow> (error option \<times> world) option" where
  "Accept en h w =
     do {
       w1 \<leftarrow> setStatus en h Accepted w;
       let w2 = w1\<lparr>edge := insert (vtxID (handles w1 h)) (edge w1)\<rparr>;
       (ps, w3) \<leftarrow> Parents en h w2;
       let w4 = removeParents ps w3;
       let w5 = state_SetEdge (edge w4) w4;
       w6 \<leftarrow> clearParents h w5;
       Some (db_Commit en w6)
     }"

text \<open>\<^verbatim>\<open>Reject\<close>, lines 268--276.\<close>

definition Reject :: "env \<Rightarrow> haddr \<Rightarrow> world \<Rightarrow> (error option \<times> world) option" where
  "Reject en h w =
     do {
       w1 \<leftarrow> setStatus en h Rejected w;
       w2 \<leftarrow> clearParents h w1;
       Some (db_Commit en w2)
     }"

section \<open>Observations\<close>

text \<open>The result and the final world of a call that did not panic.\<close>

definition ret :: "('a \<times> world) option \<Rightarrow> 'a option" where
  "ret r = map_option fst r"

definition world_of :: "('a \<times> world) option \<Rightarrow> world option" where
  "world_of r = map_option snd r"

text \<open>Reading a handle's state cell without calling any method.\<close>

definition cell :: "haddr \<Rightarrow> world \<Rightarrow> vertexState option" where
  "cell h w = map_option (states w) (v (handles w h))"

definition mem_status :: "haddr \<Rightarrow> world \<Rightarrow> Status option" where
  "mem_status h w = map_option status (cell h w)"

definition mem_parents :: "haddr \<Rightarrow> world \<Rightarrow> haddr list option" where
  "mem_parents h w = map_option parents (cell h w)"

text \<open>The store as the open transaction sees it, and as last committed.\<close>

definition stored_status :: "ID \<Rightarrow> world \<Rightarrow> Status option" where
  "stored_status i w = st_status (view w) i"

definition durable_status :: "ID \<Rightarrow> world \<Rightarrow> Status option" where
  "durable_status i w = st_status (durable w) i"

definition stored_edge :: "world \<Rightarrow> ID set" where
  "stored_edge w = st_edge (view w)"

definition durable_edge :: "world \<Rightarrow> ID set" where
  "durable_edge w = st_edge (durable w)"

text \<open>
  A reconciled handle: \<open>h\<close> is an allocated handle whose state cell \<open>a\<close> is owned by the
  cache (\<^verbatim>\<open>unique\<close> is set) and holds the body \<open>b\<close>, and the cached parent handles,
  if any, are handles of the body's parent identifiers. This is the state in which
  \<^verbatim>\<open>refresh\<close> leaves a handle whose body is derivable.
\<close>

definition reconciled :: "world \<Rightarrow> haddr \<Rightarrow> saddr \<Rightarrow> vertex \<Rightarrow> bool" where
  "reconciled w h a b \<longleftrightarrow>
     h < next_handle w \<and> v (handles w h) = Some a \<and> unique (states w a) \<and>
     vtx (states w a) = Some b \<and>
     (parents (states w a) = [] \<or>
      map (\<lambda>p. vtxID (handles w p)) (parents (states w a)) = parentIDs b)"

text \<open>
  A well-formed de-duplicator: every cached handle has a state cell that was allocated
  and is marked \<^verbatim>\<open>unique\<close>. The cache marks a handle so when it registers it and
  clears the mark through \<^verbatim>\<open>Evict\<close> when it drops it.
\<close>

definition cache_ok :: "world \<Rightarrow> bool" where
  "cache_ok w \<longleftrightarrow>
     list_all (\<lambda>e. case v (handles w (snd e)) of
                      None \<Rightarrow> False
                    | Some c \<Rightarrow> c < next_state w \<and> unique (states w c)) (cache w)"

section \<open>Concrete worlds\<close>

text \<open>
  The scenario of the specification: vertex V (identifier 3) with parents A and B
  (identifiers 1 and 2), height 5; A and B are Accepted and the frontier is {A, B}.
\<close>

definition bodyV :: vertex where
  "bodyV = \<lparr>vid = 3, parentIDs = [1, 2], height = 5, txs = [], vbytes = [7]\<rparr>"

definition noHandle :: uniqueVertex where
  "noHandle = \<lparr>vtxID = 0, bytes = None, v = None\<rparr>"

definition sceneStore :: "Status \<Rightarrow> store" where
  "sceneStore s =
     \<lparr>st_status = [1 \<mapsto> Accepted, 2 \<mapsto> Accepted, 3 \<mapsto> s],
      st_vertex = [3 \<mapsto> bodyV], st_edge = {1, 2}\<rparr>"

text \<open>V is held by handle 0, which is canonical and hydrated, with status \<open>s\<close>.\<close>

definition scene :: "Status \<Rightarrow> world" where
  "scene s =
     \<lparr>handles = (\<lambda>_. noHandle)(0 := \<lparr>vtxID = 3, bytes = None, v = Some 0\<rparr>),
      next_handle = 1,
      states = (\<lambda>_. zero_state)(0 := \<lparr>unique = True, verified = False, validity = None,
                 vtx = Some bodyV, status = s, parents = [], vs_txs = []\<rparr>),
      next_state = 1, cache = [(3, 0)], cache_size = 8, edge = {1, 2},
      view = sceneStore s, durable = sceneStore s, io = []\<rparr>"

text \<open>V is referenced by identifier only (handle 0, nil state); nothing is cached.\<close>

definition sceneById :: "Status \<Rightarrow> world" where
  "sceneById s =
     \<lparr>handles = (\<lambda>_. noHandle)(0 := \<lparr>vtxID = 3, bytes = None, v = None\<rparr>),
      next_handle = 1, states = (\<lambda>_. zero_state), next_state = 0,
      cache = [], cache_size = 8, edge = {1, 2},
      view = sceneStore s, durable = sceneStore s, io = []\<rparr>"

text \<open>
  V has just been received as the bytes \<open>[7]\<close>: handle 0 holds them, its state is nil,
  the store knows neither a body nor a status for V.
\<close>

definition sceneBytes :: "byte_seq \<Rightarrow> world" where
  "sceneBytes bs =
     \<lparr>handles = (\<lambda>_. noHandle)(0 := \<lparr>vtxID = 3, bytes = Some bs, v = None\<rparr>),
      next_handle = 1, states = (\<lambda>_. zero_state), next_state = 0,
      cache = [], cache_size = 8, edge = {1, 2},
      view = \<lparr>st_status = [1 \<mapsto> Accepted, 2 \<mapsto> Accepted], st_vertex = Map.empty,
               st_edge = {1, 2}\<rparr>,
      durable = \<lparr>st_status = [1 \<mapsto> Accepted, 2 \<mapsto> Accepted], st_vertex = Map.empty,
               st_edge = {1, 2}\<rparr>,
      io = []\<rparr>"

text \<open>
  V (identifier 3, handle 0) together with a child C (identifier 9, handle 1) whose only
  parent is V. Both handles are canonical and hydrated, both vertices are Processing.
\<close>

definition bodyC :: vertex where
  "bodyC = \<lparr>vid = 9, parentIDs = [3], height = 6, txs = [], vbytes = [8]\<rparr>"

definition sceneChild :: world where
  "sceneChild =
     \<lparr>handles = (\<lambda>_. noHandle)(0 := \<lparr>vtxID = 3, bytes = None, v = Some 0\<rparr>,
                                  1 := \<lparr>vtxID = 9, bytes = None, v = Some 1\<rparr>),
      next_handle = 2,
      states = (\<lambda>_. zero_state)
                 (0 := \<lparr>unique = True, verified = False, validity = None,
                        vtx = Some bodyV, status = Processing, parents = [], vs_txs = []\<rparr>,
                  1 := \<lparr>unique = True, verified = False, validity = None,
                        vtx = Some bodyC, status = Processing, parents = [], vs_txs = []\<rparr>),
      next_state = 2, cache = [(9, 1), (3, 0)], cache_size = 8, edge = {1, 2},
      view = \<lparr>st_status = [1 \<mapsto> Accepted, 2 \<mapsto> Accepted, 3 \<mapsto> Processing,
                            9 \<mapsto> Processing],
               st_vertex = [3 \<mapsto> bodyV, 9 \<mapsto> bodyC], st_edge = {1, 2}\<rparr>,
      durable = \<lparr>st_status = [1 \<mapsto> Accepted, 2 \<mapsto> Accepted, 3 \<mapsto> Processing,
                               9 \<mapsto> Processing],
                  st_vertex = [3 \<mapsto> bodyV, 9 \<mapsto> bodyC], st_edge = {1, 2}\<rparr>,
      io = []\<rparr>"

text \<open>
  A parser that accepts exactly the bytes \<open>[7]\<close>, a validator that rejects height 0, and
  a commit that succeeds (\<open>env0\<close>) or fails (\<open>envFail\<close>).
\<close>

definition env0 :: env where
  "env0 =
     \<lparr>parseVertex = (\<lambda>bs. if bs = [7] then (Some bodyV, None) else (None, Some ParseFailure)),
      verifyVertex = (\<lambda>b. if height b = 0 then Some ValidationFailure else None),
      commitErr = None\<rparr>"

definition envFail :: env where
  "envFail = env0\<lparr>commitErr := Some StorageFailure\<rparr>"

section \<open>Supporting lemmas\<close>

text \<open>The definitions that evaluate a method on a concrete world.\<close>

lemmas scene_defs = sceneChild_def bodyC_def scene_def sceneById_def sceneBytes_def sceneStore_def bodyV_def noHandle_def env0_def envFail_def zero_state_def empty_vertex_def
lemmas op_defs = refresh_def deriveBody_def storeAndUpdateStatus_def state_SetVertex_def state_Status_def
        state_SetStatus_def state_Vertex_def state_SetEdge_def db_Commit_def upd_state_def allocState_def UniqueVertex_def Evict_def
        setStatus_def Parents_def clearParents_def removeParents_def Accept_def Reject_def Let_def

subsection \<open>Canonical handles\<close>

text \<open>
  On a handle whose state cell is marked \<^verbatim>\<open>unique\<close>, \<^verbatim>\<open>refresh\<close> changes
  nothing, so a method that starts with \<^verbatim>\<open>refresh\<close> acts on the world as it is.
\<close>

lemma refresh_canonical:
  "v (handles w h) = Some a \<Longrightarrow> unique (states w a) \<Longrightarrow> refresh en h w = Some w"
  by (simp add: refresh_def)

lemma deriveBody_v:
  "deriveBody en h p w = Some w1 \<Longrightarrow> \<exists>a. v (handles w1 h) = Some a"
  by (auto simp: deriveBody_def storeAndUpdateStatus_def state_SetVertex_def state_Status_def
        state_SetStatus_def state_Vertex_def upd_state_def Let_def
      split: option.splits if_splits prod.splits)

lemma refresh_v:
  "refresh en h w = Some w1 \<Longrightarrow> \<exists>a. v (handles w1 h) = Some a"
  by (auto simp: refresh_def Let_def dest: deriveBody_v split: option.splits if_splits prod.splits)

lemma setStatus_canonical:
  "v (handles w h) = Some a \<Longrightarrow> unique (states w a) \<Longrightarrow>
   setStatus en h s w =
     Some (if status (states w a) = s then w
           else upd_state a (\<lambda>x. x\<lparr>status := s\<rparr>) (state_SetStatus (vtxID (handles w h)) s w))"
  by (simp add: setStatus_def refresh_def)

text \<open>
  The loop of \<^verbatim>\<open>Parents\<close> only allocates: it leaves every handle below the
  allocation pointer alone, and the new handles carry the parent identifiers in order.
\<close>

lemma makeParents_props:
  "makeParents ps w = (hs, w2) \<Longrightarrow>
     states w2 = states w \<and> next_state w2 = next_state w \<and> cache w2 = cache w \<and>
     cache_size w2 = cache_size w \<and> edge w2 = edge w \<and> view w2 = view w \<and>
     durable w2 = durable w \<and> io w2 = io w \<and>
     next_handle w2 = next_handle w + length ps \<and>
     (\<forall>x < next_handle w. handles w2 x = handles w x) \<and>
     map (\<lambda>p. vtxID (handles w2 p)) hs = ps"
proof (induction ps arbitrary: w hs)
  case Nil
  then show ?case by simp
next
  case (Cons p ps)
  let ?w1 = "w\<lparr>handles := (handles w)(next_handle w := \<lparr>vtxID = p, bytes = None, v = None\<rparr>),
                 next_handle := Suc (next_handle w)\<rparr>"
  obtain hs' where mk: "makeParents ps ?w1 = (hs', w2)" and hs: "hs = next_handle w # hs'"
    using Cons.prems by (auto simp: Let_def split: prod.splits)
  from Cons.IH [OF mk] show ?case
    using hs by simp
qed

lemma fold_remove:
  "fold (\<lambda>p e. e - {f p}) ps e = e - set (map f ps)"
  by (induction ps arbitrary: e) auto

text \<open>\<^verbatim>\<open>Accept\<close> on a reconciled handle, field by field.\<close>

lemma Accept_reconciled:
  assumes rc: "reconciled w h a b"
  shows "\<exists>w'. Accept en h w = Some (commitErr en, w') \<and>
           states w' = (states w)(a := (states w a)\<lparr>status := Accepted, parents := []\<rparr>) \<and>
           edge w' = insert (vtxID (handles w h)) (edge w) - set (parentIDs b) \<and>
           view w' = (view w)\<lparr>st_status :=
                        (if status (states w a) = Accepted then st_status (view w)
                         else (st_status (view w))(vtxID (handles w h) \<mapsto> Accepted)),
                      st_edge := insert (vtxID (handles w h)) (edge w) - set (parentIDs b)\<rparr> \<and>
           durable w' = (if commitErr en = None then view w' else durable w) \<and>
           io w' = io w @ (if status (states w a) = Accepted then []
                           else [PutStatus (vtxID (handles w h)) Accepted]) @
                   [PutEdge (insert (vtxID (handles w h)) (edge w) - set (parentIDs b)), CommitCall] \<and>
           cache w' = cache w \<and> cache_size w' = cache_size w \<and> next_state w' = next_state w \<and>
           next_handle w \<le> next_handle w' \<and>
           (\<forall>x < next_handle w. handles w' x = handles w x)"
proof -
  from rc have hl: "h < next_handle w" and a: "v (handles w h) = Some a"
    and u: "unique (states w a)" and b: "vtx (states w a) = Some b"
    and pc: "parents (states w a) = [] \<or>
      map (\<lambda>p. vtxID (handles w p)) (parents (states w a)) = parentIDs b"
    by (simp_all add: reconciled_def)
  let ?V = "vtxID (handles w h)"
  define w1 where "w1 = (if status (states w a) = Accepted then w
      else upd_state a (\<lambda>x. x\<lparr>status := Accepted\<rparr>) (state_SetStatus ?V Accepted w))"
  have s1: "setStatus en h Accepted w = Some w1"
    using a u by (simp add: setStatus_canonical w1_def)
  have w1: "handles w1 = handles w" "next_handle w1 = next_handle w"
      "states w1 = (states w)(a := (states w a)\<lparr>status := Accepted\<rparr>)"
      "edge w1 = edge w" "cache w1 = cache w" "cache_size w1 = cache_size w"
      "next_state w1 = next_state w" "durable w1 = durable w"
      "view w1 = (view w)\<lparr>st_status :=
                        (if status (states w a) = Accepted then st_status (view w)
                         else (st_status (view w))(?V \<mapsto> Accepted))\<rparr>"
      "io w1 = io w @ (if status (states w a) = Accepted then []
                           else [PutStatus ?V Accepted])"
    by (auto simp: w1_def state_SetStatus_def upd_state_def fun_eq_iff)
  let ?w2 = "w1\<lparr>edge := insert (vtxID (handles w1 h)) (edge w1)\<rparr>"
  have r2: "refresh en h ?w2 = Some ?w2"
    using a u w1 by (intro refresh_canonical [where a = a]) simp_all
  obtain ps w3 where p: "Parents en h ?w2 = Some (ps, w3)"
    and w3: "states w3 = (states w1)(a := (states w1 a)\<lparr>parents := ps\<rparr>)"
      "map (\<lambda>p. vtxID (handles w3 p)) ps = parentIDs b"
      "edge w3 = edge ?w2" "cache w3 = cache w" "cache_size w3 = cache_size w"
      "next_state w3 = next_state w" "durable w3 = durable w" "view w3 = view w1" "io w3 = io w1"
      "next_handle w \<le> next_handle w3" "\<forall>x < next_handle w. handles w3 x = handles w x"
  proof (cases "length (parents (states w a)) = length (parentIDs b)")
    case True
    with pc have m: "map (\<lambda>p. vtxID (handles w p)) (parents (states w a)) = parentIDs b"
      by auto
    have "Parents en h ?w2 = Some (parents (states w a), ?w2)"
      using r2 a b w1 True by (simp add: Parents_def)
    then show ?thesis using that [of "parents (states w a)" ?w2] w1 m
      by (simp add: fun_eq_iff)
  next
    case False
    obtain hs wm where mk: "makeParents (parentIDs b) ?w2 = (hs, wm)"
      by (cases "makeParents (parentIDs b) ?w2")
    have "Parents en h ?w2 = Some (hs, upd_state a (\<lambda>x. x\<lparr>parents := hs\<rparr>) wm)"
      using r2 a b w1 False mk by (simp add: Parents_def)
    then show ?thesis using that [of hs "upd_state a (\<lambda>x. x\<lparr>parents := hs\<rparr>) wm"]
        makeParents_props [OF mk] w1
      by (simp add: upd_state_def)
  qed
  have v3: "v (handles w3 h) = Some a" "vtxID (handles w3 h) = ?V"
    using w3 hl a by simp_all
  have im: "(\<lambda>p. vtxID (handles w3 p)) ` set ps = set (parentIDs b)"
    using arg_cong [OF w3(2), of set] by simp
  show ?thesis
    unfolding Accept_def
    using s1 p v3 w1 w3 im
    by (simp add: Let_def removeParents_def fold_remove state_SetEdge_def clearParents_def
        db_Commit_def upd_state_def fun_eq_iff)
qed

text \<open>\<^verbatim>\<open>Reject\<close> on a canonical handle, field by field.\<close>

lemma Reject_canonical:
  assumes a: "v (handles w h) = Some a" and u: "unique (states w a)"
  shows "\<exists>w'. Reject en h w = Some (commitErr en, w') \<and>
           states w' = (states w)(a := (states w a)\<lparr>status := Rejected, parents := []\<rparr>) \<and>
           handles w' = handles w \<and> next_handle w' = next_handle w \<and>
           edge w' = edge w \<and>
           view w' = (view w)\<lparr>st_status :=
                        (if status (states w a) = Rejected then st_status (view w)
                         else (st_status (view w))(vtxID (handles w h) \<mapsto> Rejected))\<rparr> \<and>
           durable w' = (if commitErr en = None then view w' else durable w) \<and>
           io w' = io w @ (if status (states w a) = Rejected then []
                           else [PutStatus (vtxID (handles w h)) Rejected]) @ [CommitCall] \<and>
           cache w' = cache w \<and> cache_size w' = cache_size w \<and> next_state w' = next_state w"
  using a u
  by (simp add: Reject_def setStatus_canonical clearParents_def db_Commit_def
      state_SetStatus_def upd_state_def fun_eq_iff)

text \<open>
  A method that starts with \<^verbatim>\<open>refresh\<close> gives the same result on a world and on
  the world \<^verbatim>\<open>refresh\<close> makes of it, when that leaves the handle canonical.
\<close>

lemma setStatus_after_refresh:
  "refresh en h w = Some w1 \<Longrightarrow> v (handles w1 h) = Some a \<Longrightarrow> unique (states w1 a) \<Longrightarrow>
   setStatus en h s w = setStatus en h s w1"
  by (simp add: setStatus_def refresh_canonical)

lemma Accept_after_refresh:
  "refresh en h w = Some w1 \<Longrightarrow> v (handles w1 h) = Some a \<Longrightarrow> unique (states w1 a) \<Longrightarrow>
   Accept en h w = Accept en h w1"
  by (simp add: Accept_def setStatus_after_refresh)

lemma Reject_after_refresh:
  "refresh en h w = Some w1 \<Longrightarrow> v (handles w1 h) = Some a \<Longrightarrow> unique (states w1 a) \<Longrightarrow>
   Reject en h w = Reject en h w1"
  by (simp add: Reject_def setStatus_after_refresh)

lemma Status_canonical:
  "v (handles w h) = Some a \<Longrightarrow> unique (states w a) \<Longrightarrow>
   Status_of en h w = Some (status (states w a), w)"
  by (simp add: Status_of_def refresh_canonical)

subsection \<open>The concrete worlds\<close>

text \<open>
  \<^verbatim>\<open>refresh\<close> on the handle built from the identifier alone registers it in the
  cache, loads its status and fetches its body from the store.
\<close>

lemma sceneById_refresh:
  "\<exists>w1. refresh en 0 (sceneById s) = Some w1 \<and> reconciled w1 0 0 bodyV \<and>
     status (states w1 0) = s \<and> vtxID (handles w1 0) = 3 \<and> edge w1 = {1, 2} \<and>
     view w1 = sceneStore s \<and> durable w1 = sceneStore s \<and>
     io w1 = [GetStatus 3, GetVertex 3]"
  by (simp add: op_defs scene_defs reconciled_def)

lemma scene_reconciled:
  "reconciled (scene s) 0 0 bodyV"
  by (simp add: scene_def reconciled_def)

subsection \<open>What refresh leaves alone\<close>

lemma UniqueVertex_frame:
  "UniqueVertex h w = (u, w2) \<Longrightarrow>
     edge w2 = edge w \<and> durable w2 = durable w \<and> view w2 = view w \<and> io w2 = io w \<and>
     handles w2 = handles w \<and> next_handle w2 = next_handle w"
  by (auto simp: UniqueVertex_def Evict_def upd_state_def Let_def split: option.splits if_splits)

lemma deriveBody_frame:
  "deriveBody en h p w = Some w1 \<Longrightarrow>
     edge w1 = edge w \<and> durable w1 = durable w \<and> handles w1 = handles w \<and>
     next_handle w1 = next_handle w \<and> cache w1 = cache w \<and>
     st_edge (view w1) = st_edge (view w)"
  by (auto simp: deriveBody_def storeAndUpdateStatus_def state_SetVertex_def state_Status_def
        state_SetStatus_def state_Vertex_def upd_state_def Let_def
      split: option.splits if_splits prod.splits)

lemma refresh_frame:
  assumes "refresh en h w = Some w1"
  shows "edge w1 = edge w \<and> durable w1 = durable w \<and> st_edge (view w1) = st_edge (view w) \<and>
         next_handle w1 = next_handle w"
proof (cases "v (handles w h)")
  case None
  let ?w0 = "allocState h w"
  have f0: "edge ?w0 = edge w" "durable ?w0 = durable w" "view ?w0 = view w"
    "next_handle ?w0 = next_handle w"
    by (simp_all add: allocState_def)
  obtain u w2 where uv: "UniqueVertex h ?w0 = (u, w2)"
    by (cases "UniqueVertex h ?w0")
  note f2 = UniqueVertex_frame [OF uv]
  from assms None uv show ?thesis
    using f0 f2
    by (auto simp: refresh_def Let_def allocState_def zero_state_def state_Status_def upd_state_def
        dest!: deriveBody_frame split: if_splits prod.splits)
next
  case (Some a)
  show ?thesis
  proof (cases "unique (states w a)")
    case True
    with Some assms show ?thesis by (simp add: refresh_def)
  next
    case False
    obtain u w2 where uv: "UniqueVertex h w = (u, w2)"
      by (cases "UniqueVertex h w")
    note f2 = UniqueVertex_frame [OF uv]
    from assms Some False uv show ?thesis
      using f2
      by (auto simp: refresh_def Let_def state_Status_def upd_state_def
          dest!: deriveBody_frame split: if_splits prod.splits)
  qed
qed

subsection \<open>When refresh leaves a handle canonical\<close>

text \<open>
  With a well-formed de-duplicator, every \<^verbatim>\<open>refresh\<close> that returns leaves the
  handle with a state cell marked \<^verbatim>\<open>unique\<close>: either the cell was marked already,
  or the handle was registered and its cell marked, or the handle took over the cell of
  the cached handle, which is marked.
\<close>

lemma deriveBody_unique:
  "deriveBody en h p w = Some w1 \<Longrightarrow> v (handles w h) = Some a \<Longrightarrow> unique (states w a) \<Longrightarrow>
     v (handles w1 h) = Some a \<and> unique (states w1 a)"
  by (auto simp: deriveBody_def storeAndUpdateStatus_def state_SetVertex_def state_Status_def
        state_SetStatus_def state_Vertex_def upd_state_def Let_def
      split: option.splits if_splits prod.splits)

lemma UniqueVertex_other:
  assumes "cache_ok w" and "UniqueVertex h w = (u, w2)" and "u \<noteq> h"
  shows "\<exists>c. v (handles w u) = Some c \<and> c < next_state w \<and> unique (states w c) \<and>
             states w2 = states w \<and> handles w2 = handles w"
proof -
  let ?key = "vtxID (handles w h)"
  from assms(2,3) have m: "map_of (cache w) ?key = Some u"
    and w2: "w2 = w\<lparr>cache := (?key, u) # filter (\<lambda>p. fst p \<noteq> ?key) (cache w)\<rparr>"
    by (auto simp: UniqueVertex_def Let_def split: option.splits)
  from m have "(?key, u) \<in> set (cache w)" by (rule map_of_SomeD)
  with assms(1) show ?thesis
    using w2 by (auto simp: cache_ok_def list_all_iff split: option.splits)
qed

lemma refresh_makes_canonical:
  assumes ok: "cache_ok w" and r: "refresh en h w = Some w1"
  shows "\<exists>a. v (handles w1 h) = Some a \<and> unique (states w1 a)"
proof -
  let ?w0 = "if v (handles w h) = None then allocState h w else w"
  have ok0: "cache_ok ?w0"
    using ok by (auto simp: cache_ok_def allocState_def list_all_iff split: option.splits)
  from r obtain a where a: "v (handles ?w0 h) = Some a"
    by (auto simp: refresh_def Let_def split: option.splits)
  show ?thesis
  proof (cases "unique (states ?w0 a)")
    case True
    with r a show ?thesis by (auto simp: refresh_def Let_def split: if_splits)
  next
    case False
    obtain u w2 where uv: "UniqueVertex h ?w0 = (u, w2)"
      by (cases "UniqueVertex h ?w0")
    have h2: "handles w2 = handles ?w0"
      using UniqueVertex_frame [OF uv] by simp
    show ?thesis
    proof (cases "u = h")
      case True
      let ?w3 = "upd_state a (\<lambda>s. s\<lparr>status := fst (state_Status (vtxID (handles w2 h)) w2),
                    unique := True\<rparr>) (snd (state_Status (vtxID (handles w2 h)) w2))"
      from r a False uv True
      have d: "deriveBody en h (vtx (states w2 a)) ?w3 = Some w1"
        by (auto simp: refresh_def Let_def split: if_splits prod.splits)
      have "v (handles ?w3 h) = Some a" "unique (states ?w3 a)"
        using a h2 by (simp_all add: upd_state_def state_Status_def)
      from deriveBody_unique [OF d this] show ?thesis by blast
    next
      case ne: False
      from UniqueVertex_other [OF ok0 uv ne] obtain c where
        c: "v (handles ?w0 u) = Some c" "unique (states ?w0 c)" "states w2 = states ?w0"
        by blast
      let ?w3 = "w2\<lparr>handles := (handles w2)(h := (handles w2 u)\<lparr>bytes := bytes (handles w2 h)\<rparr>)\<rparr>"
      from r a False uv ne
      have d: "deriveBody en h (vtx (states w2 a)) ?w3 = Some w1"
        by (auto simp: refresh_def Let_def split: if_splits prod.splits)
      have "v (handles ?w3 h) = Some c" "unique (states ?w3 c)"
        using c h2 by simp_all
      from deriveBody_unique [OF d this] show ?thesis by blast
    qed
  qed
qed

subsection \<open>Parents on a reconciled handle\<close>

lemma Parents_reconciled:
  assumes rc: "reconciled w h a b"
  shows "\<exists>ps w'. Parents en h w = Some (ps, w') \<and>
           map (\<lambda>p. vtxID (handles w' p)) ps = parentIDs b \<and>
           states w' = (states w)(a := (states w a)\<lparr>parents := ps\<rparr>) \<and>
           v (handles w' h) = Some a"
proof -
  from rc have hl: "h < next_handle w" and a: "v (handles w h) = Some a"
    and u: "unique (states w a)" and b: "vtx (states w a) = Some b"
    and pc: "parents (states w a) = [] \<or>
      map (\<lambda>p. vtxID (handles w p)) (parents (states w a)) = parentIDs b"
    by (simp_all add: reconciled_def)
  have r: "refresh en h w = Some w"
    using a u by (rule refresh_canonical)
  show ?thesis
  proof (cases "length (parents (states w a)) = length (parentIDs b)")
    case True
    with pc have "map (\<lambda>p. vtxID (handles w p)) (parents (states w a)) = parentIDs b"
      by auto
    then show ?thesis
      using r a b True by (simp add: Parents_def fun_eq_iff)
  next
    case False
    obtain hs wm where mk: "makeParents (parentIDs b) w = (hs, wm)"
      by (cases "makeParents (parentIDs b) w")
    show ?thesis
      using r a b False mk makeParents_props [OF mk] hl
      by (simp add: Parents_def upd_state_def)
  qed
qed

lemma Accept_keeps_reconciled:
  assumes rc: "reconciled w h a b"
    and st: "states w' = (states w)(a := (states w a)\<lparr>status := s, parents := []\<rparr>)"
    and hs: "\<forall>x < next_handle w. handles w' x = handles w x"
    and nh: "next_handle w \<le> next_handle w'"
  shows "reconciled w' h a b"
  using assms by (auto simp: reconciled_def)

section \<open>The claims\<close>

text \<open>
  C1 (amended). The claim that a handle's statuses form a prefix of Unknown, Processing,
  Accepted or of Unknown, Processing, Rejected fails: \<^verbatim>\<open>setStatus\<close> compares the
  new status with the current one only to skip the write, and never refuses a transition
  (the counterexample follows the theorem). What holds instead: for a handle that
  \<^verbatim>\<open>refresh\<close> leaves reconciled, \<^verbatim>\<open>setStatus(s)\<close> leaves the status at
  \<open>s\<close> whatever it was before; \<^verbatim>\<open>Accept\<close> leaves it at Accepted and
  \<^verbatim>\<open>Reject\<close> leaves it at Rejected, from any earlier status, the opposite decision
  included; and \<^verbatim>\<open>Status()\<close> called next reports exactly that status.
\<close>
theorem decision_sets_status_unconditionally:
  assumes r: "refresh en h w = Some w1" and rc: "reconciled w1 h a b"
  shows "(\<exists>w2. setStatus en h s w = Some w2 \<and> mem_status h w2 = Some s \<and>
               ret (Status_of en h w2) = Some s) \<and>
         (\<exists>w3. Accept en h w = Some (commitErr en, w3) \<and> mem_status h w3 = Some Accepted \<and>
               ret (Status_of en h w3) = Some Accepted) \<and>
         (\<exists>w4. Reject en h w = Some (commitErr en, w4) \<and> mem_status h w4 = Some Rejected \<and>
               ret (Status_of en h w4) = Some Rejected)"
proof -
  from rc have hl: "h < next_handle w1" and a: "v (handles w1 h) = Some a"
    and u: "unique (states w1 a)"
    by (simp_all add: reconciled_def)
  have "setStatus en h s w = setStatus en h s w1"
    using r a u by (rule setStatus_after_refresh)
  then have p1: "\<exists>w2. setStatus en h s w = Some w2 \<and> mem_status h w2 = Some s \<and>
               ret (Status_of en h w2) = Some s"
    using a u
    by (simp add: setStatus_canonical Status_of_def refresh_def mem_status_def cell_def ret_def
        upd_state_def state_SetStatus_def)
  have "Accept en h w = Accept en h w1"
    using r a u by (rule Accept_after_refresh)
  moreover from Accept_reconciled [OF rc, of en] obtain w3 where
    "Accept en h w1 = Some (commitErr en, w3)"
    "states w3 = (states w1)(a := (states w1 a)\<lparr>status := Accepted, parents := []\<rparr>)"
    "\<forall>x < next_handle w1. handles w3 x = handles w1 x"
    by blast
  ultimately have p2: "\<exists>w3. Accept en h w = Some (commitErr en, w3) \<and>
      mem_status h w3 = Some Accepted \<and> ret (Status_of en h w3) = Some Accepted"
    using a u hl
    by (simp add: Status_of_def refresh_def mem_status_def cell_def ret_def)
  have "Reject en h w = Reject en h w1"
    using r a u by (rule Reject_after_refresh)
  moreover from Reject_canonical [OF a u, of en] obtain w4 where
    "Reject en h w1 = Some (commitErr en, w4)"
    "states w4 = (states w1)(a := (states w1 a)\<lparr>status := Rejected, parents := []\<rparr>)"
    "handles w4 = handles w1"
    by blast
  ultimately have p3: "\<exists>w4. Reject en h w = Some (commitErr en, w4) \<and>
      mem_status h w4 = Some Rejected \<and> ret (Status_of en h w4) = Some Rejected"
    using a u
    by (simp add: Status_of_def refresh_def mem_status_def cell_def ret_def)
  from p1 p2 p3 show ?thesis by blast
qed

theorem decision_sets_status_unconditionally_witness:
  "ret (Status_of env0 0 (sceneById Rejected)) = Some Rejected \<and>
   ret (world_of (Accept env0 0 (sceneById Rejected)) \<bind> Status_of env0 0) = Some Accepted \<and>
   ret (Status_of env0 0 (sceneById Accepted)) = Some Accepted \<and>
   ret (world_of (Reject env0 0 (sceneById Accepted)) \<bind> Status_of env0 0) = Some Rejected"
proof -
  obtain w1 where w1: "refresh env0 0 (sceneById Rejected) = Some w1"
    "reconciled w1 0 0 bodyV" "status (states w1 0) = Rejected"
    using sceneById_refresh [of env0 Rejected] by blast
  obtain w2 where w2: "refresh env0 0 (sceneById Accepted) = Some w2"
    "reconciled w2 0 0 bodyV" "status (states w2 0) = Accepted"
    using sceneById_refresh [of env0 Accepted] by blast
  have "ret (Status_of env0 0 (sceneById Rejected)) = Some Rejected"
    "ret (Status_of env0 0 (sceneById Accepted)) = Some Accepted"
    using w1 w2 by (simp_all add: Status_of_def reconciled_def ret_def)
  moreover have "ret (world_of (Accept env0 0 (sceneById Rejected)) \<bind> Status_of env0 0) = Some Accepted"
    using decision_sets_status_unconditionally [OF w1(1,2), of Accepted]
    by (auto simp: world_of_def)
  moreover have "ret (world_of (Reject env0 0 (sceneById Accepted)) \<bind> Status_of env0 0) = Some Rejected"
    using decision_sets_status_unconditionally [OF w2(1,2), of Rejected]
    by (auto simp: world_of_def)
  ultimately show ?thesis by simp
qed

theorem status_monotone_counterexample:
  "ret (Status_of env0 0 (scene Rejected)) = Some Rejected \<and>
   ret (world_of (Accept env0 0 (scene Rejected)) \<bind> Status_of env0 0) = Some Accepted \<and>
   ret (Status_of env0 0 (scene Accepted)) = Some Accepted \<and>
   ret (world_of (Reject env0 0 (scene Accepted)) \<bind> Status_of env0 0) = Some Rejected"
  by (simp add: op_defs scene_defs ret_def world_of_def Status_of_def)

text \<open>
  C2 (amended). The claim that Accept on a Rejected handle (or Reject on an Accepted one)
  returns an error fails: no conflict is checked anywhere (the
  counterexample follows the theorem). What holds instead: for a handle that
  \<^verbatim>\<open>refresh\<close> leaves reconciled, \<^verbatim>\<open>Accept\<close> and \<^verbatim>\<open>Reject\<close>
  return exactly the result of \<^verbatim>\<open>db.Commit()\<close>, whatever the earlier status was, and
  when the earlier status differs from the new decision the stored status of the vertex is
  overwritten with the new decision.
\<close>
theorem decision_returns_commit_result:
  assumes r: "refresh en h w = Some w1" and rc: "reconciled w1 h a b"
  shows "ret (Accept en h w) = Some (commitErr en) \<and>
         ret (Reject en h w) = Some (commitErr en) \<and>
         (status (states w1 a) \<noteq> Accepted \<longrightarrow>
            map_option (stored_status (vtxID (handles w1 h))) (world_of (Accept en h w)) =
              Some (Some Accepted)) \<and>
         (status (states w1 a) \<noteq> Rejected \<longrightarrow>
            map_option (stored_status (vtxID (handles w1 h))) (world_of (Reject en h w)) =
              Some (Some Rejected))"
proof -
  from rc have a: "v (handles w1 h) = Some a" and u: "unique (states w1 a)"
    by (simp_all add: reconciled_def)
  have "Accept en h w = Accept en h w1"
    using r a u by (rule Accept_after_refresh)
  moreover from Accept_reconciled [OF rc, of en] obtain w3 where
    "Accept en h w1 = Some (commitErr en, w3)"
    "view w3 = (view w1)\<lparr>st_status :=
                        (if status (states w1 a) = Accepted then st_status (view w1)
                         else (st_status (view w1))(vtxID (handles w1 h) \<mapsto> Accepted)),
                      st_edge := insert (vtxID (handles w1 h)) (edge w1) - set (parentIDs b)\<rparr>"
    by blast
  ultimately have p1: "ret (Accept en h w) = Some (commitErr en)"
    "status (states w1 a) \<noteq> Accepted \<longrightarrow>
       map_option (stored_status (vtxID (handles w1 h))) (world_of (Accept en h w)) =
         Some (Some Accepted)"
    by (simp_all add: ret_def world_of_def stored_status_def)
  have "Reject en h w = Reject en h w1"
    using r a u by (rule Reject_after_refresh)
  moreover from Reject_canonical [OF a u, of en] obtain w4 where
    "Reject en h w1 = Some (commitErr en, w4)"
    "view w4 = (view w1)\<lparr>st_status :=
                        (if status (states w1 a) = Rejected then st_status (view w1)
                         else (st_status (view w1))(vtxID (handles w1 h) \<mapsto> Rejected))\<rparr>"
    by blast
  ultimately have p2: "ret (Reject en h w) = Some (commitErr en)"
    "status (states w1 a) \<noteq> Rejected \<longrightarrow>
       map_option (stored_status (vtxID (handles w1 h))) (world_of (Reject en h w)) =
         Some (Some Rejected)"
    by (simp_all add: ret_def world_of_def stored_status_def)
  from p1 p2 show ?thesis by blast
qed

theorem decision_returns_commit_result_witness:
  "stored_status 3 (sceneById Rejected) = Some Rejected \<and>
   ret (Accept env0 0 (sceneById Rejected)) = Some None \<and>
   map_option (stored_status 3) (world_of (Accept env0 0 (sceneById Rejected))) =
     Some (Some Accepted) \<and>
   stored_status 3 (sceneById Accepted) = Some Accepted \<and>
   ret (Reject envFail 0 (sceneById Accepted)) = Some (Some StorageFailure) \<and>
   map_option (stored_status 3) (world_of (Reject envFail 0 (sceneById Accepted))) =
     Some (Some Rejected)"
proof -
  obtain w1 where w1: "refresh env0 0 (sceneById Rejected) = Some w1"
    "reconciled w1 0 0 bodyV" "status (states w1 0) = Rejected" "vtxID (handles w1 0) = 3"
    using sceneById_refresh [of env0 Rejected] by blast
  obtain w2 where w2: "refresh envFail 0 (sceneById Accepted) = Some w2"
    "reconciled w2 0 0 bodyV" "status (states w2 0) = Accepted" "vtxID (handles w2 0) = 3"
    using sceneById_refresh [of envFail Accepted] by blast
  show ?thesis
    using decision_returns_commit_result [OF w1(1,2)] w1(3,4)
      decision_returns_commit_result [OF w2(1,2)] w2(3,4)
    by (simp add: env0_def envFail_def stored_status_def sceneById_def sceneStore_def)
qed

theorem conflicting_decision_counterexample:
  "mem_status 0 (scene Rejected) = Some Rejected \<and>
   ret (Accept env0 0 (scene Rejected)) = Some None \<and>
   map_option (stored_status 3) (world_of (Accept env0 0 (scene Rejected))) =
     Some (Some Accepted) \<and>
   (world_of (Accept env0 0 (scene Rejected)) \<bind> mem_status 0) = Some Accepted \<and>
   (world_of (Accept env0 0 (scene Processing)) \<bind> mem_status 0) = Some Accepted \<and>
   ret (world_of (Accept env0 0 (scene Processing)) \<bind> Reject env0 0) = Some None \<and>
   (world_of (world_of (Accept env0 0 (scene Processing)) \<bind> Reject env0 0) \<bind> mem_status 0) =
     Some Rejected"
  by (simp add: op_defs scene_defs ret_def world_of_def mem_status_def cell_def stored_status_def)

text \<open>
  C3 (the code departs from the claim). Handle 0 holds the bytes \<open>[7]\<close>, which the parser
  accepts with body \<open>bodyV\<close>. After \<^verbatim>\<open>refresh\<close> the handle's body is the empty
  placeholder, \<^verbatim>\<open>verified\<close> is set with a nil cached result, the status is still
  Unknown, and the only store call was the status read: neither the body nor the status
  Processing was persisted, and \<^verbatim>\<open>Verify\<close> then returns nil without validating
  anything. For the bytes \<open>[8]\<close>, which the parser rejects with a nil vertex,
  \<^verbatim>\<open>refresh\<close> hands the nil vertex to \<^verbatim>\<open>storeAndUpdateStatus\<close> and
  panics instead of caching the parse error. Line 186 tests \<^verbatim>\<open>err != nil\<close> where
  the two branches need \<^verbatim>\<open>err == nil\<close>.
\<close>
theorem refresh_parse_branches_swapped:
  "parseVertex env0 [7] = (Some bodyV, None) \<and>
   (refresh env0 0 (sceneBytes [7]) \<bind> cell 0) =
     Some \<lparr>unique = True, verified = True, validity = None, vtx = Some empty_vertex,
            status = Unknown, parents = [], vs_txs = []\<rparr> \<and>
   map_option io (refresh env0 0 (sceneBytes [7])) = Some [GetStatus 3] \<and>
   map_option (stored_status 3) (refresh env0 0 (sceneBytes [7])) = Some None \<and>
   ret (refresh env0 0 (sceneBytes [7]) \<bind> Verify env0 0) = Some None \<and>
   parseVertex env0 [8] = (None, Some ParseFailure) \<and>
   refresh env0 0 (sceneBytes [8]) = None"
  by (simp add: op_defs scene_defs cell_def stored_status_def ret_def Verify_def)

text \<open>
  C9 (the code departs from the claim). \<^verbatim>\<open>Status\<close>, \<^verbatim>\<open>Parents\<close>,
  \<^verbatim>\<open>Height\<close> and \<^verbatim>\<open>Txs\<close> call \<^verbatim>\<open>refresh\<close> first, but
  \<^verbatim>\<open>Bytes\<close> and \<^verbatim>\<open>Verify\<close> do not. On a handle built from an identifier
  alone (nil state, as \<^verbatim>\<open>Parents\<close> builds them) whose body and status are in the
  store, \<^verbatim>\<open>Verify\<close> and \<^verbatim>\<open>Bytes\<close> panic on the nil state, although after a
  \<^verbatim>\<open>refresh\<close> both succeed, and although \<^verbatim>\<open>Height\<close> succeeds on that very
  handle.
\<close>
theorem Verify_and_Bytes_skip_refresh:
  "Verify env0 0 (sceneById Processing) = None \<and>
   ret (refresh env0 0 (sceneById Processing) \<bind> Verify env0 0) = Some None \<and>
   Bytes env0 0 (sceneById Processing) = None \<and>
   ret (refresh env0 0 (sceneById Processing) \<bind> Bytes env0 0) = Some [7] \<and>
   ret (Height env0 0 (sceneById Processing)) = Some 5"
  by (simp add: op_defs scene_defs ret_def Verify_def Bytes_def Height_def)

text \<open>
  C8. \<^verbatim>\<open>Evict\<close> only clears the \<^verbatim>\<open>unique\<close> flag of the handle's state cell:
  the handle heap, the cache, the frontier, the store (both the open transaction and the
  committed content) and the record of store calls are unchanged, so no store call is made;
  in every state cell the body, the status, the verification flag and result, and the
  cached parents and transactions are unchanged; and the \<^verbatim>\<open>unique\<close> flag of a cell
  stays as it was unless the cell is the evicted handle's, where it becomes false.
\<close>
theorem Evict_only_clears_unique:
  "handles (Evict h w) = handles w \<and> next_handle (Evict h w) = next_handle w \<and>
   next_state (Evict h w) = next_state w \<and> cache (Evict h w) = cache w \<and>
   cache_size (Evict h w) = cache_size w \<and> edge (Evict h w) = edge w \<and>
   view (Evict h w) = view w \<and> durable (Evict h w) = durable w \<and> io (Evict h w) = io w \<and>
   vtx (states (Evict h w) a) = vtx (states w a) \<and>
   status (states (Evict h w) a) = status (states w a) \<and>
   verified (states (Evict h w) a) = verified (states w a) \<and>
   validity (states (Evict h w) a) = validity (states w a) \<and>
   parents (states (Evict h w) a) = parents (states w a) \<and>
   vs_txs (states (Evict h w) a) = vs_txs (states w a) \<and>
   unique (states (Evict h w) a) = (unique (states w a) \<and> v (handles w h) \<noteq> Some a)"
  by (simp add: Evict_def upd_state_def split: option.split)

theorem Evict_only_clears_unique_witness:
  "map_option unique (cell 0 (scene Processing)) = Some True \<and>
   map_option unique (cell 0 (Evict 0 (scene Processing))) = Some False \<and>
   map_option vtx (cell 0 (Evict 0 (scene Processing))) = Some (Some bodyV) \<and>
   mem_status 0 (Evict 0 (scene Processing)) = Some Processing \<and>
   io (Evict 0 (scene Processing)) = [] \<and>
   view (Evict 0 (scene Processing)) = sceneStore Processing \<and>
   durable (Evict 0 (scene Processing)) = sceneStore Processing \<and>
   edge (Evict 0 (scene Processing)) = {1, 2} \<and>
   cache (Evict 0 (scene Processing)) = [(3, 0)]"
proof -
  have s: "v (handles (scene Processing) 0) = Some 0" "unique (states (scene Processing) 0)"
    "vtx (states (scene Processing) 0) = Some bodyV"
    "status (states (scene Processing) 0) = Processing"
    "io (scene Processing) = []" "view (scene Processing) = sceneStore Processing"
    "durable (scene Processing) = sceneStore Processing" "edge (scene Processing) = {1, 2}"
    "cache (scene Processing) = [(3, 0)]"
    by (simp_all add: scene_def)
  show ?thesis
    using Evict_only_clears_unique [of 0 "scene Processing" 0] s
    by (simp add: cell_def mem_status_def)
qed

text \<open>
  C10. Let \<^verbatim>\<open>refresh\<close> succeed on a handle and leave the world \<open>w1\<close>. Then
  \<^verbatim>\<open>setStatus(s)\<close> succeeds and leaves status \<open>s\<close>. If the status in \<open>w1\<close>
  already equals \<open>s\<close>, the resulting world is \<open>w1\<close> itself: no store call is added and
  no field changes. Otherwise exactly one store call is added, the write of \<open>s\<close> under the
  handle's identifier, and the stored status of that identifier becomes \<open>s\<close>.
\<close>
theorem setStatus_writes_iff_changed:
  assumes "refresh en h w = Some w1"
  shows "\<exists>a w2. v (handles w1 h) = Some a \<and> setStatus en h s w = Some w2 \<and>
           status (states w2 a) = s \<and>
           io w2 = io w1 @ (if status (states w1 a) = s then []
                            else [PutStatus (vtxID (handles w1 h)) s]) \<and>
           (if status (states w1 a) = s then w2 = w1
            else view w2 = (view w1)\<lparr>st_status := (st_status (view w1))(vtxID (handles w1 h) \<mapsto> s)\<rparr>)"
proof -
  from assms obtain a where a: "v (handles w1 h) = Some a"
    using refresh_v by blast
  show ?thesis
    using assms a by (simp add: setStatus_def state_SetStatus_def upd_state_def)
qed

theorem setStatus_writes_iff_changed_witness:
  "map_option io (refresh env0 0 (sceneById Processing)) = Some [GetStatus 3, GetVertex 3] \<and>
   setStatus env0 0 Processing (sceneById Processing) = refresh env0 0 (sceneById Processing) \<and>
   map_option io (setStatus env0 0 Accepted (sceneById Processing)) =
     Some [GetStatus 3, GetVertex 3, PutStatus 3 Accepted] \<and>
   map_option (stored_status 3) (setStatus env0 0 Accepted (sceneById Processing)) =
     Some (Some Accepted)"
proof -
  obtain w1 where w1: "refresh env0 0 (sceneById Processing) = Some w1"
    and f: "reconciled w1 0 0 bodyV" "status (states w1 0) = Processing"
       "vtxID (handles w1 0) = 3" "io w1 = [GetStatus 3, GetVertex 3]"
    using sceneById_refresh [of env0 Processing] by blast
  from f(1) have a: "v (handles w1 0) = Some 0" by (simp add: reconciled_def)
  show ?thesis
    using setStatus_writes_iff_changed [OF w1, of Processing]
      setStatus_writes_iff_changed [OF w1, of Accepted] w1 f a
    by (auto simp: stored_status_def)
qed



text \<open>
  C5 (amended). The claim that nothing re-populates the cached parent list of a decided
  handle, so that \<^verbatim>\<open>Parents()\<close> returns an empty sequence, fails: \<^verbatim>\<open>Parents\<close>
  rebuilds the list whenever its length differs from the number of parent identifiers of
  the body (the counterexample follows the theorem), and \<^verbatim>\<open>Accept\<close> itself relies
  on that, since it calls \<^verbatim>\<open>Parents\<close> after the status is already Accepted. What
  holds instead: when \<^verbatim>\<open>Accept\<close> or \<^verbatim>\<open>Reject\<close> returns, the cached parent list
  is empty; the next \<^verbatim>\<open>Parents()\<close> call succeeds, returns one handle per parent
  identifier of the body, in the body's order, and caches that list again. So it returns
  an empty sequence only for a body without parent identifiers.
\<close>
theorem decided_parents_rederived:
  assumes r: "refresh en h w = Some w1" and rc: "reconciled w1 h a b"
  shows "(\<exists>w'. Accept en h w = Some (commitErr en, w') \<and> mem_parents h w' = Some [] \<and>
            (\<exists>ps w''. Parents en2 h w' = Some (ps, w'') \<and>
               map (\<lambda>p. vtxID (handles w'' p)) ps = parentIDs b \<and>
               mem_parents h w'' = Some ps)) \<and>
         (\<exists>w'. Reject en h w = Some (commitErr en, w') \<and> mem_parents h w' = Some [] \<and>
            (\<exists>ps w''. Parents en2 h w' = Some (ps, w'') \<and>
               map (\<lambda>p. vtxID (handles w'' p)) ps = parentIDs b \<and>
               mem_parents h w'' = Some ps))"
proof -
  from rc have hl: "h < next_handle w1" and a: "v (handles w1 h) = Some a"
    and u: "unique (states w1 a)"
    by (simp_all add: reconciled_def)
  have eqA: "Accept en h w = Accept en h w1"
    using r a u by (rule Accept_after_refresh)
  from Accept_reconciled [OF rc, of en] obtain wa where
    acc: "Accept en h w1 = Some (commitErr en, wa)"
    and sta: "states wa = (states w1)(a := (states w1 a)\<lparr>status := Accepted, parents := []\<rparr>)"
    and hsa: "\<forall>x < next_handle w1. handles wa x = handles w1 x"
    and nha: "next_handle w1 \<le> next_handle wa"
    by blast
  have rca: "reconciled wa h a b"
    using rc sta hsa nha by (rule Accept_keeps_reconciled)
  from Parents_reconciled [OF rca, of en2] obtain ps w'' where
    pa: "Parents en2 h wa = Some (ps, w'')"
      "map (\<lambda>p. vtxID (handles w'' p)) ps = parentIDs b"
      "states w'' = (states wa)(a := (states wa a)\<lparr>parents := ps\<rparr>)"
      "v (handles w'' h) = Some a"
    by blast
  have ma: "mem_parents h wa = Some []"
    using hsa hl a sta by (simp add: mem_parents_def cell_def)
  have "mem_parents h w'' = Some ps"
    using pa(3,4) by (simp add: mem_parents_def cell_def)
  with eqA acc ma pa(1,2) have A: "\<exists>w'. Accept en h w = Some (commitErr en, w') \<and>
      mem_parents h w' = Some [] \<and>
      (\<exists>ps w''. Parents en2 h w' = Some (ps, w'') \<and>
         map (\<lambda>p. vtxID (handles w'' p)) ps = parentIDs b \<and> mem_parents h w'' = Some ps)"
    by auto
  have eqR: "Reject en h w = Reject en h w1"
    using r a u by (rule Reject_after_refresh)
  from Reject_canonical [OF a u, of en] obtain wr where
    rej: "Reject en h w1 = Some (commitErr en, wr)"
    and str: "states wr = (states w1)(a := (states w1 a)\<lparr>status := Rejected, parents := []\<rparr>)"
    and hsr: "handles wr = handles w1" and nhr: "next_handle wr = next_handle w1"
    by blast
  have rcr: "reconciled wr h a b"
    using rc str hsr nhr by (intro Accept_keeps_reconciled [OF rc str]) simp_all
  from Parents_reconciled [OF rcr, of en2] obtain qs v'' where
    pr: "Parents en2 h wr = Some (qs, v'')"
      "map (\<lambda>p. vtxID (handles v'' p)) qs = parentIDs b"
      "states v'' = (states wr)(a := (states wr a)\<lparr>parents := qs\<rparr>)"
      "v (handles v'' h) = Some a"
    by blast
  have mr: "mem_parents h wr = Some []"
    using hsr a str by (simp add: mem_parents_def cell_def)
  have "mem_parents h v'' = Some qs"
    using pr(3,4) by (simp add: mem_parents_def cell_def)
  with eqR rej mr pr(1,2) have R: "\<exists>w'. Reject en h w = Some (commitErr en, w') \<and>
      mem_parents h w' = Some [] \<and>
      (\<exists>ps w''. Parents en2 h w' = Some (ps, w'') \<and>
         map (\<lambda>p. vtxID (handles w'' p)) ps = parentIDs b \<and> mem_parents h w'' = Some ps)"
    by auto
  from A R show ?thesis by blast
qed

theorem decided_parents_rederived_witness:
  "(world_of (Accept env0 0 (sceneById Processing)) \<bind> mem_parents 0) = Some [] \<and>
   map_option length (ret (world_of (Accept env0 0 (sceneById Processing)) \<bind> Parents env0 0)) =
     Some 2 \<and>
   (world_of (Reject env0 0 (sceneById Processing)) \<bind> mem_parents 0) = Some [] \<and>
   map_option length (ret (world_of (Reject env0 0 (sceneById Processing)) \<bind> Parents env0 0)) =
     Some 2"
proof -
  obtain w1 where w1: "refresh env0 0 (sceneById Processing) = Some w1"
    "reconciled w1 0 0 bodyV"
    using sceneById_refresh [of env0 Processing] by blast
  note th = decided_parents_rederived [OF w1, of env0]
  have A: "(world_of (Accept env0 0 (sceneById Processing)) \<bind> mem_parents 0) = Some [] \<and>
     map_option length (ret (world_of (Accept env0 0 (sceneById Processing)) \<bind> Parents env0 0)) =
       Some 2"
    using th [THEN conjunct1]
  proof (elim exE conjE)
    fix w' ps w''
    assume acc: "Accept env0 0 (sceneById Processing) = Some (commitErr env0, w')"
      and mp: "mem_parents 0 w' = Some []"
      and pa: "Parents env0 0 w' = Some (ps, w'')"
      and ids: "map (\<lambda>p. vtxID (handles w'' p)) ps = parentIDs bodyV"
    have "length ps = length (parentIDs bodyV)"
      using arg_cong [OF ids, of length] by simp
    then have "length ps = 2"
      by (simp add: bodyV_def)
    then show ?thesis
      using acc mp pa by (simp add: world_of_def ret_def)
  qed
  have R: "(world_of (Reject env0 0 (sceneById Processing)) \<bind> mem_parents 0) = Some [] \<and>
     map_option length (ret (world_of (Reject env0 0 (sceneById Processing)) \<bind> Parents env0 0)) =
       Some 2"
    using th [THEN conjunct2]
  proof (elim exE conjE)
    fix w' ps w''
    assume rej: "Reject env0 0 (sceneById Processing) = Some (commitErr env0, w')"
      and mp: "mem_parents 0 w' = Some []"
      and pa: "Parents env0 0 w' = Some (ps, w'')"
      and ids: "map (\<lambda>p. vtxID (handles w'' p)) ps = parentIDs bodyV"
    have "length ps = length (parentIDs bodyV)"
      using arg_cong [OF ids, of length] by simp
    then have "length ps = 2"
      by (simp add: bodyV_def)
    then show ?thesis
      using rej mp pa by (simp add: world_of_def ret_def)
  qed
  from A R show ?thesis by simp
qed

theorem decided_parents_counterexample:
  "(world_of (Accept env0 0 (scene Processing)) \<bind> mem_status 0) = Some Accepted \<and>
   (world_of (Accept env0 0 (scene Processing)) \<bind> mem_parents 0) = Some [] \<and>
   ret (world_of (Accept env0 0 (scene Processing)) \<bind> Parents env0 0) = Some [3, 4] \<and>
   (world_of (world_of (Accept env0 0 (scene Processing)) \<bind> Parents env0 0) \<bind> mem_parents 0) =
     Some [3, 4] \<and>
   (world_of (Reject env0 0 (scene Processing)) \<bind> mem_status 0) = Some Rejected \<and>
   ret (world_of (Reject env0 0 (scene Processing)) \<bind> Parents env0 0) = Some [1, 2]"
  by (simp add: op_defs scene_defs ret_def world_of_def mem_status_def mem_parents_def cell_def)

text \<open>
  C6 (amended). The claim that a failed commit leaves either the whole decision or none of
  it fails: nothing is rolled back (the counterexample follows the theorem). What holds
  instead: when the commit fails with error \<open>e\<close>, \<^verbatim>\<open>Accept\<close> and \<^verbatim>\<open>Reject\<close>
  return \<open>e\<close> to the caller; the status in memory is nevertheless Accepted (Rejected),
  the frontier in memory and the frontier written to the open transaction are nevertheless
  the new frontier, and the committed content of the store is what it was before the call.
\<close>
theorem failed_commit_keeps_decision:
  assumes r: "refresh en h w = Some w1" and rc: "reconciled w1 h a b"
    and ce: "commitErr en = Some e"
  shows "(\<exists>w'. Accept en h w = Some (Some e, w') \<and>
            mem_status h w' = Some Accepted \<and>
            edge w' = insert (vtxID (handles w1 h)) (edge w) - set (parentIDs b) \<and>
            stored_edge w' = edge w' \<and>
            durable w' = durable w) \<and>
         (\<exists>w'. Reject en h w = Some (Some e, w') \<and>
            mem_status h w' = Some Rejected \<and>
            edge w' = edge w \<and>
            durable w' = durable w)"
proof -
  let ?V = "vtxID (handles w1 h)"
  from rc have hl: "h < next_handle w1" and a: "v (handles w1 h) = Some a"
    and u: "unique (states w1 a)"
    by (simp_all add: reconciled_def)
  have e: "edge w1 = edge w" and d: "durable w1 = durable w"
    using refresh_frame [OF r] by simp_all
  have eqA: "Accept en h w = Accept en h w1"
    using r a u by (rule Accept_after_refresh)
  from Accept_reconciled [OF rc, of en] obtain wa where
    acc: "Accept en h w1 = Some (commitErr en, wa)"
    and sta: "states wa = (states w1)(a := (states w1 a)\<lparr>status := Accepted, parents := []\<rparr>)"
    and eda: "edge wa = insert ?V (edge w1) - set (parentIDs b)"
    and vwa: "view wa = (view w1)\<lparr>st_status :=
                        (if status (states w1 a) = Accepted then st_status (view w1)
                         else (st_status (view w1))(?V \<mapsto> Accepted)),
                      st_edge := insert ?V (edge w1) - set (parentIDs b)\<rparr>"
    and dua: "durable wa = (if commitErr en = None then view wa else durable w1)"
    and hsa: "\<forall>x < next_handle w1. handles wa x = handles w1 x"
    by blast
  have ma: "mem_status h wa = Some Accepted"
    using hsa hl a sta by (simp add: mem_status_def cell_def)
  have sea: "stored_edge wa = edge wa"
    using vwa eda by (simp add: stored_edge_def)
  have A: "\<exists>w'. Accept en h w = Some (Some e, w') \<and>
            mem_status h w' = Some Accepted \<and>
            edge w' = insert ?V (edge w) - set (parentIDs b) \<and>
            stored_edge w' = edge w' \<and> durable w' = durable w"
    using eqA acc ma sea eda dua ce e d by (intro exI [of _ wa]) simp
  have eqR: "Reject en h w = Reject en h w1"
    using r a u by (rule Reject_after_refresh)
  from Reject_canonical [OF a u, of en] obtain wr where
    rej: "Reject en h w1 = Some (commitErr en, wr)"
    and str: "states wr = (states w1)(a := (states w1 a)\<lparr>status := Rejected, parents := []\<rparr>)"
    and hsr: "handles wr = handles w1"
    and edr: "edge wr = edge w1"
    and dur: "durable wr = (if commitErr en = None then view wr else durable w1)"
    by blast
  have mr: "mem_status h wr = Some Rejected"
    using hsr a str by (simp add: mem_status_def cell_def)
  have R: "\<exists>w'. Reject en h w = Some (Some e, w') \<and>
            mem_status h w' = Some Rejected \<and> edge w' = edge w \<and> durable w' = durable w"
    using eqR rej mr edr dur ce e d by (intro exI [of _ wr]) simp
  from A R show ?thesis by (rule conjI)
qed

theorem failed_commit_keeps_decision_witness:
  "commitErr envFail = Some StorageFailure \<and>
   durable_status 3 (sceneById Processing) = Some Processing \<and>
   durable_edge (sceneById Processing) = {1, 2} \<and>
   ret (Accept envFail 0 (sceneById Processing)) = Some (Some StorageFailure) \<and>
   (world_of (Accept envFail 0 (sceneById Processing)) \<bind> mem_status 0) = Some Accepted \<and>
   map_option edge (world_of (Accept envFail 0 (sceneById Processing))) = Some {3} \<and>
   map_option stored_edge (world_of (Accept envFail 0 (sceneById Processing))) = Some {3} \<and>
   map_option (durable_status 3) (world_of (Accept envFail 0 (sceneById Processing))) =
     Some (Some Processing) \<and>
   map_option durable_edge (world_of (Accept envFail 0 (sceneById Processing))) = Some {1, 2} \<and>
   ret (Reject envFail 0 (sceneById Processing)) = Some (Some StorageFailure) \<and>
   (world_of (Reject envFail 0 (sceneById Processing)) \<bind> mem_status 0) = Some Rejected \<and>
   map_option (durable_status 3) (world_of (Reject envFail 0 (sceneById Processing))) =
     Some (Some Processing)"
proof -
  have ce: "commitErr envFail = Some StorageFailure"
    by (simp add: envFail_def)
  obtain w1 where w1: "refresh envFail 0 (sceneById Processing) = Some w1"
    "reconciled w1 0 0 bodyV" and V: "vtxID (handles w1 0) = 3"
    using sceneById_refresh [of envFail Processing] by blast
  have b: "durable_status 3 (sceneById Processing) = Some Processing"
    "durable_edge (sceneById Processing) = {1, 2}"
    by (simp_all add: sceneById_def sceneStore_def durable_status_def durable_edge_def)
  note th = failed_commit_keeps_decision [OF w1 ce]
  have A: "ret (Accept envFail 0 (sceneById Processing)) = Some (Some StorageFailure) \<and>
   (world_of (Accept envFail 0 (sceneById Processing)) \<bind> mem_status 0) = Some Accepted \<and>
   map_option edge (world_of (Accept envFail 0 (sceneById Processing))) = Some {3} \<and>
   map_option stored_edge (world_of (Accept envFail 0 (sceneById Processing))) = Some {3} \<and>
   map_option (durable_status 3) (world_of (Accept envFail 0 (sceneById Processing))) =
     Some (Some Processing) \<and>
   map_option durable_edge (world_of (Accept envFail 0 (sceneById Processing))) = Some {1, 2}"
    using th [THEN conjunct1]
  proof (elim exE conjE)
    fix w'
    assume acc: "Accept envFail 0 (sceneById Processing) = Some (Some StorageFailure, w')"
      and ms: "mem_status 0 w' = Some Accepted"
      and ed: "edge w' = insert (vtxID (handles w1 0)) (edge (sceneById Processing)) -
                 set (parentIDs bodyV)"
      and se: "stored_edge w' = edge w'"
      and du: "durable w' = durable (sceneById Processing)"
    have e3: "edge w' = {3}"
      using ed V by (simp add: sceneById_def bodyV_def insert_Diff_if)
    show ?thesis
      using acc ms e3 se du b
      by (simp add: ret_def world_of_def durable_status_def durable_edge_def)
  qed
  have R: "ret (Reject envFail 0 (sceneById Processing)) = Some (Some StorageFailure) \<and>
   (world_of (Reject envFail 0 (sceneById Processing)) \<bind> mem_status 0) = Some Rejected \<and>
   map_option (durable_status 3) (world_of (Reject envFail 0 (sceneById Processing))) =
     Some (Some Processing)"
    using th [THEN conjunct2]
  proof (elim exE conjE)
    fix w'
    assume rej: "Reject envFail 0 (sceneById Processing) = Some (Some StorageFailure, w')"
      and ms: "mem_status 0 w' = Some Rejected"
      and du: "durable w' = durable (sceneById Processing)"
    show ?thesis
      using rej ms du b
      by (simp add: ret_def world_of_def durable_status_def)
  qed
  from ce b A R show ?thesis by simp
qed

theorem atomic_commit_counterexample:
  "commitErr envFail = Some StorageFailure \<and>
   mem_status 0 (scene Processing) = Some Processing \<and>
   edge (scene Processing) = {1, 2} \<and>
   durable_status 3 (scene Processing) = Some Processing \<and>
   ret (Accept envFail 0 (scene Processing)) = Some (Some StorageFailure) \<and>
   (world_of (Accept envFail 0 (scene Processing)) \<bind> mem_status 0) = Some Accepted \<and>
   map_option edge (world_of (Accept envFail 0 (scene Processing))) = Some {3} \<and>
   map_option (durable_status 3) (world_of (Accept envFail 0 (scene Processing))) =
     Some (Some Processing) \<and>
   map_option durable_edge (world_of (Accept envFail 0 (scene Processing))) = Some {1, 2} \<and>
   ret (Reject envFail 0 (scene Processing)) = Some (Some StorageFailure) \<and>
   (world_of (Reject envFail 0 (scene Processing)) \<bind> mem_status 0) = Some Rejected \<and>
   map_option (durable_status 3) (world_of (Reject envFail 0 (scene Processing))) =
     Some (Some Processing)"
  by (simp add: op_defs scene_defs ret_def world_of_def mem_status_def cell_def
      durable_status_def durable_edge_def insert_Diff_if)




end
